theory Spec2Isabelle
  imports Main "HOL-Library.Word"
begin

unbundle bit_operations_syntax

section \<open>Bytes, errors and the serial transport\<close>

text \<open>
  A \<open>Uint8Array\<close> is a list of 8-bit words. JavaScript's bitwise operators work on
  the 32-bit two's complement image of a number (\<open>ToInt32\<close>), modelled by
  \<open>word_of_int\<close> into \<open>32 word\<close>; storing into a \<open>Uint8Array\<close> keeps the low
  8 bits (\<open>ucast\<close>).
\<close>

type_synonym u8 = "8 word"
type_synonym u32 = "32 word"

definition ACK :: u8 where "ACK = 0x79"
definition NACK :: u8 where "NACK = 0x1F"

definition CMD_GET_ID :: int where "CMD_GET_ID = 0x02"
definition CMD_WRITE_MEMORY :: int where "CMD_WRITE_MEMORY = 0x31"

text \<open>One constructor for every \<open>throw\<close> of the source that the model reaches; the
  arguments are the values interpolated into the message.\<close>

datatype error =
    PortNotOpen
  | PortDisconnected
  | Timeout nat nat
  | TypeError
  | SyncNack
  | SyncFailed u8
  | CommandFailed int u8
  | GetIDMissingAck
  | InvalidWriteLength
  | WriteMemoryNack
  | AddressNack

text \<open>
  State of a \<open>WebSerialInterface\<close>. \<open>buffer\<close> and \<open>keepReading\<close> are the fields
  of the same names, and \<open>portOpen\<close> stands for \<open>this.port && this.port.writable\<close>.
  \<open>written\<close> logs the arrays handed to \<open>writer.write\<close>, oldest first.
  \<open>incoming\<close> is the environment, one entry for each sleep of a polling \<open>read\<close>:
  by how many milliseconds \<open>Date.now()\<close> has advanced when the loop tests it again, and
  the bytes that the background \<open>readLoop\<close> has pushed meanwhile (none when nothing
  arrived during that sleep). How long a sleep lasts is thus up to the environment. When
  no entry is left, nothing arrives any more. Bytes arrive during sleeps only, and nobody
  disconnects while a \<open>read\<close> is polling.
\<close>

record transport =
  portOpen :: bool
  keepReading :: bool
  buffer :: "u8 list"
  incoming :: "(nat \<times> u8 list) list"
  written :: "u8 list list"

type_synonym 'a io = "transport \<Rightarrow> (error + 'a) \<times> transport"

definition ok :: "'a \<Rightarrow> 'a io" where
  "ok x t = (Inr x, t)"

definition throw :: "error \<Rightarrow> 'a io" where
  "throw e t = (Inl e, t)"

definition andThen :: "'a io \<Rightarrow> ('a \<Rightarrow> 'b io) \<Rightarrow> 'b io" where
  "andThen m f t = (case m t of (Inl e, t') \<Rightarrow> (Inl e, t') | (Inr x, t') \<Rightarrow> f x t')"

text \<open>Indexing a typed array: \<open>None\<close> is \<open>undefined\<close>.\<close>

definition at :: "'a list \<Rightarrow> nat \<Rightarrow> 'a option" where
  "at xs i = (if i < length xs then Some (xs ! i) else None)"

text \<open>
  The polling loop of \<open>WebSerialInterface.read\<close>; \<open>elapsed\<close> is
  \<open>Date.now() - startTime\<close> at the test. \<open>await new Promise(r => setTimeout(r, 10))\<close>
  takes the next entry of the environment: the clock advances by its duration and its
  bytes are appended to the buffer. With no entry left the buffer stays as it is while the
  loop sleeps on, until the deadline has passed and the timeout is thrown. \<open>count\<close> is
  a number of bytes, a natural number, as in every call of the repository.
\<close>

function read_loop :: "nat \<Rightarrow> nat \<Rightarrow> nat \<Rightarrow> u8 list io" where
  "read_loop count timeoutMs elapsed t =
     (if length (buffer t) < count then
        if \<not> keepReading t then (Inl PortDisconnected, t)
        else if elapsed > timeoutMs then (Inl (Timeout count (length (buffer t))), t)
        else (case incoming t of
                [] \<Rightarrow> (Inl (Timeout count (length (buffer t))), t)
              | (d, chunk) # rest \<Rightarrow>
                  read_loop count timeoutMs (elapsed + d)
                    (t\<lparr>buffer := buffer t @ chunk, incoming := rest\<rparr>))
      else (Inr (take count (buffer t)), t\<lparr>buffer := drop count (buffer t)\<rparr>))"
  by pat_completeness auto
termination
  by (relation "measure (\<lambda>(count, timeoutMs, elapsed, t). length (incoming t))") auto

declare read_loop.simps [simp del]

text \<open>The three methods of the interface that the protocol engine calls as
  \<open>this.serial.read\<close>, \<open>this.serial.write\<close> and \<open>this.serial.flush\<close>; \<open>read\<close>
  is called with its default timeout of 1000 ms where the source passes none.\<close>

definition serial_read :: "nat \<Rightarrow> nat \<Rightarrow> u8 list io" where
  "serial_read count timeoutMs = read_loop count timeoutMs 0"

definition serial_write :: "u8 list \<Rightarrow> unit io" where
  "serial_write data t =
     (if \<not> portOpen t then (Inl PortNotOpen, t)
      else (Inr (), t\<lparr>written := written t @ [data]\<rparr>))"

definition serial_flush :: "unit io" where
  "serial_flush t = (Inr (), t\<lparr>buffer := []\<rparr>)"

section \<open>Protocol engine\<close>

text \<open>The methods of \<open>AT32Protocol\<close> that the claims are about, run over the
  transport above. A command or an address is a number; an integer here.\<close>

definition sync :: "unit io" where
  "sync =
     andThen serial_flush (\<lambda>_.
     andThen (serial_write [0x7F]) (\<lambda>_.
     andThen (serial_read 1 1000) (\<lambda>resp.
       case at resp 0 of
         None \<Rightarrow> throw TypeError
       | Some b \<Rightarrow>
           if b \<noteq> ACK then (if b = NACK then throw SyncNack else throw (SyncFailed b))
           else ok ())))"

definition sendCommand :: "int \<Rightarrow> unit io" where
  "sendCommand cmd =
     andThen (serial_write [word_of_int cmd, ucast ((word_of_int cmd :: u32) XOR 0xFF)]) (\<lambda>_.
     andThen (serial_read 1 1000) (\<lambda>resp.
       case at resp 0 of
         None \<Rightarrow> throw TypeError
       | Some b \<Rightarrow> if b \<noteq> ACK then throw (CommandFailed cmd b) else ok ()))"

definition sendAddress :: "int \<Rightarrow> unit io" where
  "sendAddress addr =
     (let a = (word_of_int addr :: u32);
          b3 = signed_drop_bit 24 a AND 0xFF;
          b2 = signed_drop_bit 16 a AND 0xFF;
          b1 = signed_drop_bit 8 a AND 0xFF;
          b0 = a AND 0xFF;
          checksum = b3 XOR b2 XOR b1 XOR b0
      in andThen (serial_write [ucast b3, ucast b2, ucast b1, ucast b0, ucast checksum]) (\<lambda>_.
         andThen (serial_read 1 1000) (\<lambda>ack.
           if at ack 0 \<noteq> Some ACK then throw AddressNack else ok ())))"

text \<open>The value of a typed-array element inside a bitwise expression:
  \<open>undefined\<close> converts to 0.\<close>

definition elemInt32 :: "u8 option \<Rightarrow> u32" where
  "elemInt32 x = (case x of None \<Rightarrow> 0 | Some b \<Rightarrow> ucast b)"

record chip_id =
  pid :: int
  projectID :: "u8 option"

text \<open>The tail of \<open>getID\<close>: \<open>pid >>> 0\<close> reads the 32-bit pattern as an
  unsigned number (\<open>uint\<close>).\<close>

definition decodeID :: "u8 list \<Rightarrow> chip_id" where
  "decodeID idBytes =
     (let p = push_bit 24 (elemInt32 (at idBytes 2)) OR
              push_bit 16 (elemInt32 (at idBytes 3)) OR
              push_bit 8 (elemInt32 (at idBytes 0)) OR
              elemInt32 (at idBytes 1)
      in \<lparr>pid = uint p, projectID = at idBytes 4\<rparr>)"

text \<open>\<open>read\<close> of \<open>undefined + 1\<close> (that is \<open>NaN\<close>) returns at once with no
  byte, as a read of 0 bytes does.\<close>

definition getID :: "chip_id io" where
  "getID =
     andThen (sendCommand CMD_GET_ID) (\<lambda>_.
     andThen (serial_read 1 1000) (\<lambda>lenBuf.
       let totalBytes = (case at lenBuf 0 of None \<Rightarrow> 0 | Some n \<Rightarrow> unat n + 1)
       in andThen (serial_read totalBytes 1000) (\<lambda>idBytes.
          andThen (serial_read 1 1000) (\<lambda>ack.
            if at ack 0 \<noteq> Some ACK then throw GetIDMissingAck
            else ok (decodeID idBytes)))))"

text \<open>The frame of \<open>writeMemory\<close>: a zeroed array of \<open>data.length + 2\<close> bytes,
  filled by the \<open>for\<close> loop, which also folds the checksum (a number, so 32-bit
  XOR); the checksum is stored last, truncated to a byte.\<close>

definition fillFrame :: "u8 list \<Rightarrow> u8 list \<times> u32 \<Rightarrow> u8 list \<times> u32" where
  "fillFrame data =
     fold (\<lambda>i (frame, checksum). (frame[i + 1 := data ! i], checksum XOR ucast (data ! i)))
       [0..<length data]"

definition writeFrame :: "u8 list \<Rightarrow> u8 list" where
  "writeFrame data =
     (let n = int (length data) - 1;
          frame0 = (replicate (length data + 2) 0)[0 := word_of_int n];
          (frame, checksum) = fillFrame data (frame0, word_of_int n)
      in frame[length data + 1 := ucast checksum])"

definition writeMemory :: "int \<Rightarrow> u8 list \<Rightarrow> unit io" where
  "writeMemory address data =
     (if length data > 256 \<or> length data = 0 then throw InvalidWriteLength
      else
        andThen (sendCommand CMD_WRITE_MEMORY) (\<lambda>_.
        andThen (sendAddress address) (\<lambda>_.
        andThen (serial_write (writeFrame data)) (\<lambda>_.
        andThen (serial_read 1 1000) (\<lambda>ack.
          if at ack 0 \<noteq> Some ACK then throw WriteMemoryNack else ok ())))))"

section \<open>Firmware parsers\<close>

subsection \<open>JavaScript numbers and strings\<close>

text \<open>
  The numbers of \<open>parseHex\<close> are integers or \<open>NaN\<close> (\<open>-0\<close> behaves as \<open>0\<close>
  in every operation used and is not distinguished). Sums and comparisons stay far
  below \<open>2^53\<close>, where Number arithmetic is exact. \<open>Num i\<close> returned by
  \<open>parseInt16\<close> is the integer written by the digits; the Number is its rounding to
  a double, which differs only from 14 hex digits on. The one parse that can be that long
  feeds \<open><<\<close> only, so the rounding is part of \<open>toInt32\<close>.
\<close>

datatype jsnum = NaN | Num int

text \<open>\<open>===\<close> and \<open>!==\<close> on numbers: \<open>NaN\<close> equals nothing.\<close>

definition strictEq :: "jsnum \<Rightarrow> jsnum \<Rightarrow> bool" where
  "strictEq a b = (case (a, b) of (Num x, Num y) \<Rightarrow> x = y | _ \<Rightarrow> False)"

definition numAdd :: "jsnum \<Rightarrow> jsnum \<Rightarrow> jsnum" where
  "numAdd a b = (case (a, b) of (Num x, Num y) \<Rightarrow> Num (x + y) | _ \<Rightarrow> NaN)"

definition numMul :: "jsnum \<Rightarrow> jsnum \<Rightarrow> jsnum" where
  "numMul a b = (case (a, b) of (Num x, Num y) \<Rightarrow> Num (x * y) | _ \<Rightarrow> NaN)"

fun bitLength :: "int \<Rightarrow> nat" where
  "bitLength n = (if n \<le> 0 then 0 else Suc (bitLength (n div 2)))"

declare bitLength.simps [simp del]

text \<open>The double nearest to an integer, ties to even (53 significant bits).\<close>

definition roundDouble :: "int \<Rightarrow> int" where
  "roundDouble i =
     (let n = \<bar>i\<bar> in
      if n < 2 ^ 53 then i
      else
        let e = bitLength n - 53;
            q = n div 2 ^ e;
            r = n mod 2 ^ e;
            q' = (if 2 ^ e < 2 * r \<or> (2 * r = 2 ^ e \<and> odd q) then q + 1 else q)
        in sgn i * (q' * 2 ^ e))"

text \<open>\<open>ToInt32\<close>: \<open>NaN\<close> and the infinities (a rounded value of \<open>2^1024\<close> or
  more) give 0, a finite number its residue modulo \<open>2^32\<close>.\<close>

definition toInt32 :: "jsnum \<Rightarrow> u32" where
  "toInt32 x =
     (case x of
        NaN \<Rightarrow> 0
      | Num i \<Rightarrow> (let v = roundDouble i in if 2 ^ 1024 \<le> \<bar>v\<bar> then 0 else word_of_int v))"

text \<open>\<open>x << k\<close>: a signed 32-bit result.\<close>

definition shiftLeft :: "jsnum \<Rightarrow> nat \<Rightarrow> jsnum" where
  "shiftLeft x k = Num (sint (push_bit k (toInt32 x)))"

text \<open>Storing a number into a \<open>Uint8Array\<close>.\<close>

definition toUint8 :: "jsnum \<Rightarrow> u8" where
  "toUint8 x = (case x of NaN \<Rightarrow> 0 | Num i \<Rightarrow> word_of_int i)"

text \<open>
  Strings are lists of 8-bit characters, each standing for the UTF-16 code unit of the
  same value; texts with code units above 255 are outside the model. The white space that
  \<open>parseInt\<close> skips is, in that range: TAB, LF, VT, FF, CR, space and NBSP.
\<close>

definition isWhiteSpace :: "char \<Rightarrow> bool" where
  "isWhiteSpace c = (c \<in> set [CHR 0x09, CHR 0x0A, CHR 0x0B, CHR 0x0C, CHR 0x0D, CHR 0x20, CHR 0xA0])"

definition hexDigit :: "char \<Rightarrow> nat option" where
  "hexDigit c =
     map_of (zip ''0123456789abcdef'' [0..<16] @ zip ''ABCDEF'' [10..<16]) c"

text \<open>\<open>parseInt(s, 16)\<close>: leading white space, an optional sign, an optional
  \<open>0x\<close> or \<open>0X\<close>, then the longest run of hex digits; \<open>NaN\<close> when that run is
  empty.\<close>

definition parseInt16 :: "string \<Rightarrow> jsnum" where
  "parseInt16 s =
     (let s1 = dropWhile isWhiteSpace s;
          sign = (case s1 of c # _ \<Rightarrow> if c = CHR ''-'' then -1 else 1 | [] \<Rightarrow> 1);
          s2 = (case s1 of c # r \<Rightarrow> if c = CHR ''+'' \<or> c = CHR ''-'' then r else s1 | [] \<Rightarrow> s1);
          s3 = (case s2 of
                  a # b # r \<Rightarrow> if a = CHR ''0'' \<and> (b = CHR ''x'' \<or> b = CHR ''X'') then r else s2
                | _ \<Rightarrow> s2);
          z = takeWhile (\<lambda>c. hexDigit c \<noteq> None) s3
      in if z = [] then NaN
         else Num (sign * foldl (\<lambda>acc c. 16 * acc + int (the (hexDigit c))) 0 z))"

text \<open>\<open>s.substring(a, b)\<close>: \<open>NaN\<close> counts as 0, both arguments are clamped to
  \<open>0 .. s.length\<close>, and they are swapped when the first is the larger.\<close>

definition substring :: "string \<Rightarrow> jsnum \<Rightarrow> jsnum \<Rightarrow> string" where
  "substring s a b =
     (let clamp = (\<lambda>x. case x of NaN \<Rightarrow> 0 | Num i \<Rightarrow> nat (min (max i 0) (int (length s))));
          from = min (clamp a) (clamp b);
          to = max (clamp a) (clamp b)
      in take (to - from) (drop from s))"

text \<open>\<open>text.split(/\r?\n/)\<close>; the first argument is the line being collected.\<close>

fun splitLines :: "string \<Rightarrow> string \<Rightarrow> string list" where
  "splitLines cur [] = [cur]"
| "splitLines cur (c # cs) =
     (if c = CHR 0x0A then cur # splitLines [] cs
      else if c = CHR 0x0D \<and> (case cs of d # _ \<Rightarrow> d = CHR 0x0A | [] \<Rightarrow> False)
           then cur # splitLines [] (tl cs)
      else splitLines (cur @ [c]) cs)"

subsection \<open>Segments and parse errors\<close>

record FirmwareSegment =
  address :: jsnum
  data :: "u8 list"

text \<open>The errors a parser can raise: the two \<open>throw\<close> statements of \<open>parseElf\<close>,
  and the \<open>RangeError\<close> of a \<open>DataView\<close> or \<open>Uint8Array\<close> reaching beyond the
  buffer.\<close>

datatype parse_error = InvalidElfMagic | Elf64NotSupported | RangeError

type_synonym parse_result = "parse_error + FirmwareSegment list"


subsection \<open>Intel HEX\<close>

record hex_state =
  segments :: "FirmwareSegment list"
  extendedAddress :: jsnum
  currentData :: "jsnum list"
  currentAddress :: jsnum

definition commitSegment :: "hex_state \<Rightarrow> hex_state" where
  "commitSegment st =
     (if length (currentData st) > 0 \<and> \<not> strictEq (currentAddress st) (Num (-1)) then
        st\<lparr>segments := segments st @
               [\<lparr>address = currentAddress st, data = map toUint8 (currentData st)\<rparr>],
           currentData := [],
           currentAddress := Num (-1)\<rparr>
      else st)"

text \<open>The body of the data-record branch. The \<open>for\<close> loop runs for
  \<open>i = 0, \<dots>, len - 1\<close>, and not at all when \<open>len\<close> is \<open>NaN\<close> or not
  positive.\<close>

definition dataRecord :: "jsnum \<Rightarrow> jsnum \<Rightarrow> string \<Rightarrow> hex_state \<Rightarrow> hex_state" where
  "dataRecord len addr dataStr st =
     (let absoluteAddr = numAdd (extendedAddress st) addr;
          st1 = (if strictEq (currentAddress st) (Num (-1)) then st\<lparr>currentAddress := absoluteAddr\<rparr>
                 else if \<not> strictEq absoluteAddr
                            (numAdd (currentAddress st) (Num (int (length (currentData st)))))
                 then (commitSegment st)\<lparr>currentAddress := absoluteAddr\<rparr>
                 else st);
          count = (case len of NaN \<Rightarrow> 0 | Num l \<Rightarrow> nat l)
      in st1\<lparr>currentData := currentData st1 @
                map (\<lambda>i. parseInt16 (substring dataStr (Num (int i * 2)) (Num (int i * 2 + 2))))
                  [0..<count]\<rparr>)"

text \<open>The \<open>for (const line of lines)\<close> loop; the end-of-file record leaves it.\<close>

fun hexLines :: "string list \<Rightarrow> hex_state \<Rightarrow> hex_state" where
  "hexLines [] st = st"
| "hexLines (line # rest) st =
     (if (case line of c # _ \<Rightarrow> c \<noteq> CHR '':'' | [] \<Rightarrow> True) then hexLines rest st
      else
        let len = parseInt16 (substring line (Num 1) (Num 3));
            addr = parseInt16 (substring line (Num 3) (Num 7));
            type = parseInt16 (substring line (Num 7) (Num 9));
            dataStr = substring line (Num 9) (numAdd (Num 9) (numMul len (Num 2)))
        in if strictEq type (Num 0) then hexLines rest (dataRecord len addr dataStr st)
           else if strictEq type (Num 2) then
             hexLines rest (commitSegment (st\<lparr>extendedAddress := shiftLeft (parseInt16 dataStr) 4\<rparr>))
           else if strictEq type (Num 4) then
             hexLines rest (commitSegment (st\<lparr>extendedAddress := shiftLeft (parseInt16 dataStr) 16\<rparr>))
           else if strictEq type (Num 1) then commitSegment st
           else hexLines rest st)"

text \<open>\<open>parseHex\<close> has no \<open>throw\<close> and calls nothing that raises: its result is
  always a segment list.\<close>

definition parseHex :: "string \<Rightarrow> parse_result" where
  "parseHex text =
     Inr (segments (commitSegment (hexLines (splitLines [] text)
            \<lparr>segments = [], extendedAddress = Num 0, currentData = [], currentAddress = Num (-1)\<rparr>)))"

subsection \<open>ELF\<close>

definition bindE :: "parse_error + 'a \<Rightarrow> ('a \<Rightarrow> parse_error + 'b) \<Rightarrow> parse_error + 'b" where
  "bindE m f = (case m of Inl e \<Rightarrow> Inl e | Inr x \<Rightarrow> f x)"

text \<open>The accessors of \<open>DataView\<close>: a read that does not fit into the buffer raises
  \<open>RangeError\<close>.\<close>

definition getUint8 :: "u8 list \<Rightarrow> nat \<Rightarrow> parse_error + nat" where
  "getUint8 buf off = (if length buf < off + 1 then Inl RangeError else Inr (unat (buf ! off)))"

definition getUint16 :: "u8 list \<Rightarrow> nat \<Rightarrow> bool \<Rightarrow> parse_error + nat" where
  "getUint16 buf off littleEndian =
     (if length buf < off + 2 then Inl RangeError
      else let b0 = unat (buf ! off); b1 = unat (buf ! (off + 1))
           in Inr (if littleEndian then b0 + 2 ^ 8 * b1 else 2 ^ 8 * b0 + b1))"

definition getUint32 :: "u8 list \<Rightarrow> nat \<Rightarrow> bool \<Rightarrow> parse_error + nat" where
  "getUint32 buf off littleEndian =
     (if length buf < off + 4 then Inl RangeError
      else let b0 = unat (buf ! off); b1 = unat (buf ! (off + 1));
               b2 = unat (buf ! (off + 2)); b3 = unat (buf ! (off + 3))
           in Inr (if littleEndian then b0 + 2 ^ 8 * b1 + 2 ^ 16 * b2 + 2 ^ 24 * b3
                   else 2 ^ 24 * b0 + 2 ^ 16 * b1 + 2 ^ 8 * b2 + b3))"

text \<open>\<open>new Uint8Array(buffer, byteOffset, length)\<close>.\<close>

definition uint8View :: "u8 list \<Rightarrow> nat \<Rightarrow> nat \<Rightarrow> parse_error + u8 list" where
  "uint8View buf byteOffset len =
     (if length buf < byteOffset + len then Inl RangeError
      else Inr (take len (drop byteOffset buf)))"

text \<open>One turn of the program-header loop, from the segments so far to the segments
  after it.\<close>

definition programHeader ::
    "u8 list \<Rightarrow> bool \<Rightarrow> nat \<Rightarrow> FirmwareSegment list \<Rightarrow> parse_result" where
  "programHeader buf littleEndian offset segs =
     bindE (getUint32 buf offset littleEndian) (\<lambda>pType.
       if pType = 1 then
         bindE (getUint32 buf (offset + 4) littleEndian) (\<lambda>pOffset.
         bindE (getUint32 buf (offset + 12) littleEndian) (\<lambda>pPaddr.
         bindE (getUint32 buf (offset + 16) littleEndian) (\<lambda>pFilesz.
           if pFilesz > 0 then
             bindE (uint8View buf pOffset pFilesz) (\<lambda>segmentData.
               Inr (segs @ [\<lparr>address = Num (int pPaddr), data = segmentData\<rparr>]))
           else Inr segs)))
       else Inr segs)"

fun programHeaders ::
    "u8 list \<Rightarrow> bool \<Rightarrow> nat \<Rightarrow> nat \<Rightarrow> nat list \<Rightarrow> FirmwareSegment list \<Rightarrow> parse_result" where
  "programHeaders buf littleEndian phOff phEntSize [] segs = Inr segs"
| "programHeaders buf littleEndian phOff phEntSize (i # is) segs =
     bindE (programHeader buf littleEndian (phOff + i * phEntSize) segs)
       (programHeaders buf littleEndian phOff phEntSize is)"

text \<open>The \<open>!is64Bit\<close> branch and the loop over \<open>i = 0, \<dots>, phNum - 1\<close>.\<close>

definition parseElf32 :: "u8 list \<Rightarrow> bool \<Rightarrow> parse_result" where
  "parseElf32 buf littleEndian =
     bindE (getUint32 buf 28 littleEndian) (\<lambda>phOff.
     bindE (getUint16 buf 42 littleEndian) (\<lambda>phEntSize.
     bindE (getUint16 buf 44 littleEndian) (\<lambda>phNum.
       programHeaders buf littleEndian phOff phEntSize [0..<phNum] [])))"

definition parseElf :: "u8 list \<Rightarrow> parse_result" where
  "parseElf buf =
     bindE (getUint32 buf 0 False) (\<lambda>magic.
       if magic \<noteq> 0x7F454C46 then Inl InvalidElfMagic
       else
         bindE (getUint8 buf 4) (\<lambda>cls.
         bindE (getUint8 buf 5) (\<lambda>dat.
           let is64Bit = (cls = 2); littleEndian = (dat = 1)
           in if \<not> is64Bit then parseElf32 buf littleEndian
              else Inl Elf64NotSupported)))"

section \<open>Reference definitions used in the statements\<close>

text \<open>The address frame in the words of the specification: the four address bytes,
  most significant first, then the XOR of the four.\<close>

definition spec_address_frame :: "int \<Rightarrow> u8 list" where
  "spec_address_frame addr =
     (let bs = [word_of_int (addr div 2 ^ 24), word_of_int (addr div 2 ^ 16),
                word_of_int (addr div 2 ^ 8), word_of_int addr]
      in bs @ [foldr (XOR) bs 0])"

text \<open>A connected transport on which three acknowledgements have arrived.\<close>

definition t_ex :: transport where
  "t_ex = \<lparr>portOpen = True, keepReading = True, buffer = [0x79, 0x79, 0x79], incoming = [], written = []\<rparr>"




definition t_sync :: "(nat \<times> u8 list) list \<Rightarrow> transport" where
  "t_sync chunks = \<lparr>portOpen = True, keepReading = True, buffer = [0x55, 0x79], incoming = chunks,
                    written = []\<rparr>"

definition t_id :: "u8 list \<Rightarrow> transport" where
  "t_id idBytes = \<lparr>portOpen = True, keepReading = True, buffer = [0x79],
           incoming = [(11, []), (10, []), (12, []), (10, []), (11, 0x04 # idBytes @ [0x79])],
           written = []\<rparr>"

definition t_id_done :: transport where
  "t_id_done = \<lparr>portOpen = True, keepReading = True, buffer = [], incoming = [], written = [[0x02, 0xFD]]\<rparr>"

text \<open>
  Little-endian fields of an ELF image, the offset of the \<open>i\<close>-th program header
  entry (\<open>e_phoff + i * e_phentsize\<close>) and the magic number, for stating what a
  well-formed file is.
\<close>

definition le16 :: "u8 list \<Rightarrow> nat \<Rightarrow> nat" where
  "le16 buf off = unat (buf ! off) + 2 ^ 8 * unat (buf ! (off + 1))"

definition le32 :: "u8 list \<Rightarrow> nat \<Rightarrow> nat" where
  "le32 buf off = unat (buf ! off) + 2 ^ 8 * unat (buf ! (off + 1)) +
                  2 ^ 16 * unat (buf ! (off + 2)) + 2 ^ 24 * unat (buf ! (off + 3))"

definition elfEntry :: "u8 list \<Rightarrow> nat \<Rightarrow> nat" where
  "elfEntry buf i = le32 buf 28 + i * le16 buf 42"

definition elfMagic :: "u8 list" where
  "elfMagic = [0x7F, 0x45, 0x4C, 0x46]"

text \<open>
  A 180-byte little-endian ELF image with the given class byte: the 52-byte header, two
  program header entries of 32 bytes at offset 52 (a \<open>PT_NOTE\<close> entry, then a
  \<open>PT_LOAD\<close> entry with \<open>p_offset = 116\<close>, \<open>p_paddr = 0x08000000\<close> and
  \<open>p_filesz = 64\<close>), and 64 bytes of contents.
\<close>

definition elf_file :: "u8 \<Rightarrow> u8 list" where
  "elf_file cls =
     elfMagic @ [cls, 1, 1, 0] @ replicate 8 0 @
     [2, 0, 0x28, 0, 1, 0, 0, 0, 0xC1, 0, 0, 8] @
     [0x34, 0, 0, 0] @ replicate 8 0 @ [0x34, 0] @ [0x20, 0] @ [2, 0] @ replicate 6 0 @
     ([4, 0, 0, 0] @ replicate 28 0) @
     ([1, 0, 0, 0] @ [0x74, 0, 0, 0] @ [0, 0, 0, 8] @ [0, 0, 0, 8] @ [0x40, 0, 0, 0] @
      [0x40, 0, 0, 0] @ [5, 0, 0, 0] @ [4, 0, 0, 0]) @
     replicate 64 0xA5"

text \<open>A text file from its lines, each ended by a line feed, and the two 16-byte data
  records at \<open>0x0000\<close> and \<open>0x0010\<close> used as examples.\<close>

definition joinLines :: "string list \<Rightarrow> string" where
  "joinLines ls = concat (map (\<lambda>l. l @ [CHR 0x0A]) ls)"

definition hex_row0 :: string where
  "hex_row0 = '':10000000000102030405060708090A0B0C0D0E0F78''"

definition hex_row1 :: string where
  "hex_row1 = '':10001000101112131415161718191A1B1C1D1E1F68''"

text \<open>
  The accumulator of \<open>parse_hex\<close> in the words of the specification: the segments
  emitted so far, the extended address, and the segment being accumulated, if any, as its
  base address and bytes. Closing emits the open segment when it has data. A data record
  extends the open segment when its absolute address is the base address plus the
  accumulated length, and otherwise closes it and opens a new one; the extended address
  records and the end-of-file record close it.
\<close>

record spec_hex =
  emitted :: "FirmwareSegment list"
  extended :: jsnum
  current :: "(jsnum \<times> jsnum list) option"

definition spec_close :: "spec_hex \<Rightarrow> spec_hex" where
  "spec_close s =
     (case current s of
        None \<Rightarrow> s
      | Some (base, bytes) \<Rightarrow>
          if bytes = [] then s\<lparr>current := None\<rparr>
          else s\<lparr>emitted := emitted s @ [\<lparr>address = base, data = map toUint8 bytes\<rparr>],
                 current := None\<rparr>)"

definition spec_fields :: "string \<Rightarrow> jsnum \<times> jsnum \<times> jsnum \<times> string" where
  "spec_fields line =
     (let len = parseInt16 (substring line (Num 1) (Num 3))
      in (len, parseInt16 (substring line (Num 3) (Num 7)),
          parseInt16 (substring line (Num 7) (Num 9)),
          substring line (Num 9) (numAdd (Num 9) (numMul len (Num 2)))))"

definition spec_bytes :: "jsnum \<Rightarrow> string \<Rightarrow> jsnum list" where
  "spec_bytes len dataStr =
     map (\<lambda>i. parseInt16 (substring dataStr (Num (int i * 2)) (Num (int i * 2 + 2))))
       [0..<(case len of NaN \<Rightarrow> 0 | Num l \<Rightarrow> nat l)]"

definition spec_data :: "jsnum \<Rightarrow> jsnum \<Rightarrow> string \<Rightarrow> spec_hex \<Rightarrow> spec_hex" where
  "spec_data len addr dataStr s =
     (let absolute = numAdd (extended s) addr; bytes' = spec_bytes len dataStr
      in case current s of
           None \<Rightarrow> s\<lparr>current := Some (absolute, bytes')\<rparr>
         | Some (base, bytes) \<Rightarrow>
             if strictEq absolute (numAdd base (Num (int (length bytes))))
             then s\<lparr>current := Some (base, bytes @ bytes')\<rparr>
             else (spec_close s)\<lparr>current := Some (absolute, bytes')\<rparr>)"

fun spec_lines :: "string list \<Rightarrow> spec_hex \<Rightarrow> spec_hex" where
  "spec_lines [] s = s"
| "spec_lines (line # rest) s =
     (if (case line of c # _ \<Rightarrow> c \<noteq> CHR '':'' | [] \<Rightarrow> True) then spec_lines rest s
      else case spec_fields line of (len, addr, type, dataStr) \<Rightarrow>
        if strictEq type (Num 0) then spec_lines rest (spec_data len addr dataStr s)
        else if strictEq type (Num 2) then
          spec_lines rest (spec_close (s\<lparr>extended := shiftLeft (parseInt16 dataStr) 4\<rparr>))
        else if strictEq type (Num 4) then
          spec_lines rest (spec_close (s\<lparr>extended := shiftLeft (parseInt16 dataStr) 16\<rparr>))
        else if strictEq type (Num 1) then spec_close s
        else spec_lines rest s)"

definition spec_parse_hex :: "string \<Rightarrow> FirmwareSegment list" where
  "spec_parse_hex text =
     emitted (spec_close (spec_lines (splitLines [] text)
        \<lparr>emitted = [], extended = Num 0, current = None\<rparr>))"

text \<open>No data record of the lines has the absolute address \<open>-1\<close>, starting from the
  given extended address.\<close>

fun sentinelFree :: "string list \<Rightarrow> jsnum \<Rightarrow> bool" where
  "sentinelFree [] ext = True"
| "sentinelFree (line # rest) ext =
     (if (case line of c # _ \<Rightarrow> c \<noteq> CHR '':'' | [] \<Rightarrow> True) then sentinelFree rest ext
      else case spec_fields line of (len, addr, type, dataStr) \<Rightarrow>
        if strictEq type (Num 0) then
          \<not> strictEq (numAdd ext addr) (Num (-1)) \<and> sentinelFree rest ext
        else if strictEq type (Num 2) then sentinelFree rest (shiftLeft (parseInt16 dataStr) 4)
        else if strictEq type (Num 4) then sentinelFree rest (shiftLeft (parseInt16 dataStr) 16)
        else if strictEq type (Num 1) then True
        else sentinelFree rest ext)"

text \<open>The parser state represents the accumulator: same segments and extended address,
  and either nothing pending, or the open segment with a base address other than
  \<open>-1\<close>.\<close>

definition hex_sim :: "hex_state \<Rightarrow> spec_hex \<Rightarrow> bool" where
  "hex_sim st s \<longleftrightarrow>
     segments st = emitted s \<and> extendedAddress st = extended s \<and>
     (case current s of
        None \<Rightarrow> currentData st = []
      | Some (base, bytes) \<Rightarrow>
          currentAddress st = base \<and> currentData st = bytes \<and> \<not> strictEq base (Num (-1)))"

section \<open>Properties of the protocol engine\<close>

lemma ff_mask: "(0xFF :: u32) = mask 8"
  by (simp add: mask_eq_exp_minus_1)

lemma byte_of_shift:
  "k \<le> 24 \<Longrightarrow> (ucast (signed_drop_bit k (word_of_int addr :: u32) AND 0xFF) :: u8) = word_of_int (drop_bit k addr)"
  unfolding ff_mask
  by (rule bit_word_eqI) (auto simp: bit_simps)

lemma byte_of_low: "(ucast ((word_of_int addr :: u32) AND 0xFF) :: u8) = word_of_int addr"
  unfolding ff_mask
  by (rule bit_word_eqI) (auto simp: bit_simps)

lemma ucast_xor8: "(ucast ((a::u32) XOR b) :: u8) = ucast a XOR ucast b"
  by (rule bit_word_eqI) (auto simp: bit_simps)

lemma ucast_u8_u32_u8: "(ucast (ucast (a::u8) :: u32) :: u8) = a"
  by (rule bit_word_eqI) (auto simp: bit_simps)

lemma ucast_word_of_int_u8: "(ucast (word_of_int i :: u32) :: u8) = word_of_int i"
  by (rule bit_word_eqI) (auto simp: bit_simps)

lemma cmd_complement: "(ucast ((word_of_int cmd :: u32) XOR 0xFF) :: u8) = NOT (word_of_int cmd)"
  unfolding ff_mask
  by (rule bit_word_eqI) (auto simp: bit_simps)

lemma read_loop_step:
  "length (buffer t) < c \<Longrightarrow> keepReading t \<Longrightarrow> \<not> tm < e \<Longrightarrow> incoming t = (d, chunk) # rest \<Longrightarrow>
     read_loop c tm e t =
       read_loop c tm (e + d) (t\<lparr>buffer := buffer t @ chunk, incoming := rest\<rparr>)"
  by (subst read_loop.simps) simp

lemma read_loop_stop:
  "length (buffer t) < c \<Longrightarrow> \<not> keepReading t \<Longrightarrow> read_loop c tm e t = (Inl PortDisconnected, t)"
  "length (buffer t) < c \<Longrightarrow> keepReading t \<Longrightarrow> tm < e \<or> incoming t = [] \<Longrightarrow>
     read_loop c tm e t = (Inl (Timeout c (length (buffer t))), t)"
  "\<not> length (buffer t) < c \<Longrightarrow>
     read_loop c tm e t = (Inr (take c (buffer t)), t\<lparr>buffer := drop c (buffer t)\<rparr>)"
  by (subst read_loop.simps, auto)+

text \<open>Every run of the loop either stops at once or takes one entry of the environment and
  goes on; properties of the loop are proved along the environment.\<close>

lemma read_loop_cases:
  obtains (down) "length (buffer t) < c" "\<not> keepReading t"
      "read_loop c tm e t = (Inl PortDisconnected, t)"
  | (late) "length (buffer t) < c" "keepReading t"
      "read_loop c tm e t = (Inl (Timeout c (length (buffer t))), t)"
  | (ready) "c \<le> length (buffer t)"
      "read_loop c tm e t = (Inr (take c (buffer t)), t\<lparr>buffer := drop c (buffer t)\<rparr>)"
  | (step) d chunk rest where "incoming t = (d, chunk) # rest" "length (buffer t) < c"
      "keepReading t" "\<not> tm < e"
      "read_loop c tm e t =
         read_loop c tm (e + d) (t\<lparr>buffer := buffer t @ chunk, incoming := rest\<rparr>)"
proof (cases "length (buffer t) < c")
  case False
  then show ?thesis using read_loop_stop(3) [of t c tm e] by (intro ready) simp_all
next
  case short: True
  show ?thesis
  proof (cases "keepReading t")
    case False
    then show ?thesis using short read_loop_stop(1) [of t c tm e] by (intro down)
  next
    case kr: True
    show ?thesis
    proof (cases "tm < e \<or> incoming t = []")
      case True
      then show ?thesis using short kr read_loop_stop(2) [of t c tm e] by (intro late)
    next
      case False
      then obtain d chunk rest where i: "incoming t = (d, chunk) # rest"
        by (cases "incoming t") auto
      show ?thesis
        using short kr False i read_loop_step [of t c tm e d chunk rest] by (intro step) auto
    qed
  qed
qed

lemma read_loop_frame:
  "written (snd (read_loop c tm e t)) = written t \<and>
   portOpen (snd (read_loop c tm e t)) = portOpen t \<and>
   keepReading (snd (read_loop c tm e t)) = keepReading t"
proof (induction "incoming t" arbitrary: t e)
  case Nil
  then show ?case by (cases rule: read_loop_cases [where c = c and tm = tm and e = e and t = t]) auto
next
  case (Cons x xs)
  show ?case
  proof (cases rule: read_loop_cases [where c = c and tm = tm and e = e and t = t])
    case down
    then show ?thesis by simp
  next
    case late
    then show ?thesis by simp
  next
    case ready
    then show ?thesis by simp
  next
    case (step d chunk rest)
    then show ?thesis
      using Cons(1) [of "t\<lparr>buffer := buffer t @ chunk, incoming := rest\<rparr>" "e + d"] Cons(2)
      by simp
  qed
qed

lemma read_loop_length:
  "read_loop c tm e t = (Inr bs, t') \<Longrightarrow> length bs = c"
proof (induction "incoming t" arbitrary: t e)
  case Nil
  then show ?case by (cases rule: read_loop_cases [where c = c and tm = tm and e = e and t = t]) auto
next
  case (Cons x xs)
  show ?case
  proof (cases rule: read_loop_cases [where c = c and tm = tm and e = e and t = t])
    case down
    then show ?thesis using Cons.prems by auto
  next
    case late
    then show ?thesis using Cons.prems by auto
  next
    case ready
    then show ?thesis using Cons.prems by auto
  next
    case (step d chunk rest)
    then show ?thesis
      using Cons(1) [of "t\<lparr>buffer := buffer t @ chunk, incoming := rest\<rparr>" "e + d"] Cons(2) Cons.prems
      by simp
  qed
qed

lemma serial_read_frameD:
  "serial_read c tm t = (r, t') \<Longrightarrow>
     written t' = written t \<and> portOpen t' = portOpen t \<and> keepReading t' = keepReading t"
  using read_loop_frame [of c tm 0 t] by (simp add: serial_read_def)

lemma serial_read_lengthD: "serial_read c tm t = (Inr bs, t') \<Longrightarrow> length bs = c"
  by (simp add: serial_read_def read_loop_length)

lemma read_loop_ready:
  "count \<le> length (buffer t) \<Longrightarrow>
     read_loop count tm e t = (Inr (take count (buffer t)), t\<lparr>buffer := drop count (buffer t)\<rparr>)"
  by (simp add: read_loop_stop(3))

lemma serial_read_ready:
  "count \<le> length (buffer t) \<Longrightarrow>
     serial_read count tm t = (Inr (take count (buffer t)), t\<lparr>buffer := drop count (buffer t)\<rparr>)"
  by (simp add: serial_read_def read_loop_ready)

lemma sendAddress_written:
  "portOpen t \<Longrightarrow> written (snd (sendAddress addr t)) = written t @ [spec_address_frame addr]"
  by (auto simp: sendAddress_def spec_address_frame_def andThen_def serial_write_def Let_def
        ok_def throw_def byte_of_shift byte_of_low ucast_xor8 drop_bit_eq_div
        split: prod.splits sum.splits dest!: serial_read_frameD)

lemma sendAddress_okD:
  "sendAddress addr t = (Inr u, t') \<Longrightarrow> portOpen t \<and> portOpen t' \<and> written t' = written t @ [spec_address_frame addr]"
  using sendAddress_written [of t addr]
  by (auto simp: sendAddress_def andThen_def serial_write_def Let_def
        ok_def throw_def 
        split: prod.splits sum.splits if_splits dest!: serial_read_frameD)

lemma sendCommand_okD:
  "sendCommand cmd t = (Inr u, t') \<Longrightarrow>
     portOpen t \<and> portOpen t' \<and> written t' = written t @ [[word_of_int cmd, NOT (word_of_int cmd)]]"
  by (auto simp: sendCommand_def andThen_def serial_write_def ok_def throw_def cmd_complement
        split: prod.splits sum.splits if_splits option.splits dest!: serial_read_frameD)

lemma frame_step:
  assumes "k < length ds" "length frame = length ds + 2"
  shows "(take 1 frame @ take k ds @ drop (k + 1) frame)[k + 1 := ds ! k]
         = take 1 frame @ take (Suc k) ds @ drop (Suc k + 1) frame"
proof -
  obtain f0 fs where fr: "frame = f0 # fs" using assms(2) by (cases frame) auto
  have len: "k < length fs" using assms fr by simp
  have "(take k ds @ drop k fs)[k := ds ! k] = take k ds @ (drop k fs)[0 := ds ! k]"
    using assms(1) by (simp add: list_update_append)
  also have "(drop k fs)[0 := ds ! k] = ds ! k # drop (Suc k) fs"
    using len by (metis Cons_nth_drop_Suc list_update_code(2))
  finally show ?thesis
    using assms(1) by (simp add: fr take_Suc_conv_app_nth)
qed

lemma fillFrame_inv:
  "k \<le> length ds \<Longrightarrow> length frame = length ds + 2 \<Longrightarrow>
   fold (\<lambda>i (frame, checksum). (frame[i + 1 := ds ! i], checksum XOR ucast (ds ! i))) [0..<k] (frame, c)
   = (take 1 frame @ take k ds @ drop (k + 1) frame, foldl (\<lambda>c d. c XOR ucast d) c (take k ds))"
proof (induction k)
  case 0
  then show ?case by (cases frame) auto
next
  case (Suc k)
  then have k: "k < length ds" by simp
  show ?case
    using Suc frame_step [OF k Suc.prems(2)]
    by (simp add: take_Suc_conv_app_nth [OF k])
qed

lemma fold_xor_ucast:
  "(ucast (foldl (\<lambda>c d. c XOR ucast d) (c::u32) (ds :: u8 list)) :: u8) = foldl (XOR) (ucast c) ds"
  by (induction ds arbitrary: c) (simp_all add: ucast_xor8 ucast_u8_u32_u8)

lemma writeFrame_eq:
  assumes "ds \<noteq> []" "length ds \<le> 256"
  shows "writeFrame ds = of_nat (length ds - 1) # ds @ [foldl (XOR) (of_nat (length ds - 1)) ds]"
proof -
  define w :: u32 where "w = word_of_int (int (length ds) - 1)"
  define w8 :: u8 where "w8 = word_of_int (int (length ds) - 1)"
  define frame0 where "frame0 = (replicate (length ds + 2) (0::u8))[0 := w8]"
  have len0: "length frame0 = length ds + 2" by (simp add: frame0_def)
  have f0: "frame0 = w8 # replicate (length ds) 0 @ [0]"
    by (simp add: frame0_def replicate_append_same)
  have t1: "take 1 frame0 = [w8]" by (simp add: f0)
  have d1: "drop (length ds + 1) frame0 = [0]" by (simp add: f0)
  have int_eq: "int (length ds) - 1 = int (length ds - 1)"
    using assms(1) by (cases ds) simp_all
  have w8: "w8 = of_nat (length ds - 1)" 
    unfolding w8_def int_eq by simp
  have w: "(ucast w :: u8) = of_nat (length ds - 1)"
    unfolding w_def ucast_word_of_int_u8 int_eq by simp
  have fill: "fillFrame ds (frame0, w) = (w8 # ds @ [0], foldl (\<lambda>c d. c XOR ucast d) w ds)"
    unfolding fillFrame_def using fillFrame_inv [of "length ds" ds frame0 w] len0 t1 d1 by simp
  have upd: "(w8 # ds @ [0])[length ds + 1 := x] = w8 # ds @ [x]" for x
    by (simp add: list_update_append)
  have "writeFrame ds = w8 # ds @ [ucast (foldl (\<lambda>c d. c XOR ucast d) w ds)]"
    unfolding writeFrame_def Let_def w_def [symmetric] w8_def [symmetric] frame0_def [symmetric] fill
    using upd by simp
  then show ?thesis
    by (simp only: fold_xor_ucast w w8)
qed

lemma sendCommand_ready:
  "portOpen t \<Longrightarrow> buffer t = b # bs \<Longrightarrow>
     sendCommand cmd t =
       ((if b \<noteq> ACK then Inl (CommandFailed cmd b) else Inr ()),
        t\<lparr>buffer := bs, written := written t @ [[word_of_int cmd, NOT (word_of_int cmd)]]\<rparr>)"
  by (simp add: sendCommand_def andThen_def serial_write_def serial_read_ready at_def ok_def
        throw_def cmd_complement)

lemma sendAddress_ready:
  "portOpen t \<Longrightarrow> buffer t = b # bs \<Longrightarrow>
     sendAddress addr t =
       ((if b \<noteq> ACK then Inl AddressNack else Inr ()),
        t\<lparr>buffer := bs, written := written t @ [spec_address_frame addr]\<rparr>)"
  by (simp add: sendAddress_def andThen_def serial_write_def serial_read_ready at_def ok_def
        throw_def Let_def spec_address_frame_def byte_of_shift byte_of_low ucast_xor8 drop_bit_eq_div)

text \<open>
  C4. On an open port, \<open>sendAddress\<close> performs exactly one write, of 5 bytes: the
  address bytes, most significant first, and the XOR of the four; for the address
  \<open>0x08000000\<close> these are \<open>08 00 00 00 08\<close>.
\<close>

theorem sendAddress_frame:
  "portOpen t \<Longrightarrow>
     written (snd (sendAddress addr t)) = written t @ [spec_address_frame addr] \<and>
     length (spec_address_frame addr) = 5 \<and>
     spec_address_frame 0x08000000 = [0x08, 0x00, 0x00, 0x00, 0x08]"
  by (simp add: sendAddress_written) (simp add: spec_address_frame_def)

theorem sendAddress_frame_witness:
  "portOpen t_ex \<and> written (snd (sendAddress 0x08000000 t_ex)) = [[0x08, 0x00, 0x00, 0x00, 0x08]]"
  using sendAddress_frame [of t_ex "0x08000000"] by (simp add: t_ex_def)

text \<open>
  C1. When the data has between 1 and 256 bytes and the device acknowledges the command
  and the address, \<open>writeMemory\<close> has written the command frame, the address frame and
  then one frame \<open>n, data, checksum\<close> with \<open>n = length data - 1\<close> and the checksum
  the XOR of \<open>n\<close> and all data bytes. With no data or more than 256 bytes it fails
  with the invalid-length error and the transport is untouched.
\<close>

theorem writeMemory_frame:
  "(ds \<noteq> [] \<and> length ds \<le> 256 \<and>
      sendCommand CMD_WRITE_MEMORY t = (Inr (), t1) \<and> sendAddress addr t1 = (Inr (), t2) \<longrightarrow>
      written (snd (writeMemory addr ds t)) =
        written t @ [[0x31, 0xCE], spec_address_frame addr,
                     of_nat (length ds - 1) # ds @ [foldl (XOR) (of_nat (length ds - 1)) ds]]) \<and>
   (length ds = 0 \<or> length ds > 256 \<longrightarrow>
      writeMemory addr ds t = (Inl InvalidWriteLength, t))"
proof (intro conjI impI)
  assume "length ds = 0 \<or> length ds > 256"
  then show "writeMemory addr ds t = (Inl InvalidWriteLength, t)"
    by (auto simp: writeMemory_def throw_def)
next
  assume a: "ds \<noteq> [] \<and> length ds \<le> 256 \<and>
      sendCommand CMD_WRITE_MEMORY t = (Inr (), t1) \<and> sendAddress addr t1 = (Inr (), t2)"
  then have w1: "written t1 = written t @ [[0x31, 0xCE]]"
    using sendCommand_okD [of CMD_WRITE_MEMORY t "()" t1] by (simp add: CMD_WRITE_MEMORY_def)
  from a have w2: "portOpen t2" "written t2 = written t1 @ [spec_address_frame addr]"
    using sendAddress_okD [of addr t1 "()" t2] by simp_all
  have "writeMemory addr ds t =
          andThen (serial_write (writeFrame ds)) (\<lambda>_.
          andThen (serial_read 1 1000) (\<lambda>ack.
            if at ack 0 \<noteq> Some ACK then throw WriteMemoryNack else ok ())) t2"
    using a by (simp add: writeMemory_def andThen_def)
  then have "written (snd (writeMemory addr ds t)) = written t2 @ [writeFrame ds]"
    using w2(1)
    by (auto simp: andThen_def serial_write_def ok_def throw_def
          split: prod.splits sum.splits dest!: serial_read_frameD)
  then show "written (snd (writeMemory addr ds t)) =
        written t @ [[0x31, 0xCE], spec_address_frame addr,
                     of_nat (length ds - 1) # ds @ [foldl (XOR) (of_nat (length ds - 1)) ds]]"
    using a by (simp add: w1 w2 writeFrame_eq)
qed

theorem writeMemory_frame_witness:
  "sendCommand CMD_WRITE_MEMORY t_ex = (Inr (), t_ex\<lparr>buffer := [0x79, 0x79], written := [[0x31, 0xCE]]\<rparr>) \<and>
   sendAddress 0x08000000 (t_ex\<lparr>buffer := [0x79, 0x79], written := [[0x31, 0xCE]]\<rparr>) =
     (Inr (), t_ex\<lparr>buffer := [0x79], written := [[0x31, 0xCE], [0x08, 0, 0, 0, 0x08]]\<rparr>) \<and>
   written (snd (writeMemory 0x08000000 [1, 2, 3] t_ex)) =
     [[0x31, 0xCE], [0x08, 0, 0, 0, 0x08], [2, 1, 2, 3, 2]] \<and>
   writeMemory 0x08000000 [] t_ex = (Inl InvalidWriteLength, t_ex) \<and>
   writeMemory 0x08000000 (replicate 257 0) t_ex = (Inl InvalidWriteLength, t_ex)"
  using writeMemory_frame [of "[1, 2, 3]" t_ex "t_ex\<lparr>buffer := [0x79, 0x79], written := [[0x31, 0xCE]]\<rparr>"
          "0x08000000" "t_ex\<lparr>buffer := [0x79], written := [[0x31, 0xCE], [0x08, 0, 0, 0, 0x08]]\<rparr>"]
        writeMemory_frame [of "[]" t_ex _ "0x08000000"]
        writeMemory_frame [of "replicate 257 0" t_ex _ "0x08000000"]
  by (simp add: sendCommand_ready sendAddress_ready t_ex_def ACK_def CMD_WRITE_MEMORY_def spec_address_frame_def)

section \<open>Properties of the transport\<close>






lemma read_loop_arrive:
  "keepReading t \<Longrightarrow> buffer t = [] \<Longrightarrow>
   incoming t = map (\<lambda>d. (d, [])) ds @ (d', b # bs) # rest \<Longrightarrow> e + sum_list ds \<le> tm \<Longrightarrow>
   read_loop 1 tm e t = (Inr [b], t\<lparr>buffer := bs, incoming := rest\<rparr>)"
proof (induction ds arbitrary: e t)
  case Nil
  then show ?case
    using read_loop_step [of t 1 tm e d' "b # bs" rest] by (simp add: read_loop_stop(3))
next
  case (Cons d ds)
  let ?t = "t\<lparr>buffer := buffer t @ [], incoming := map (\<lambda>d. (d, [])) ds @ (d', b # bs) # rest\<rparr>"
  have "read_loop 1 tm e t = read_loop 1 tm (e + d) ?t"
    using Cons.prems by (intro read_loop_step) simp_all
  also have "\<dots> = (Inr [b], ?t\<lparr>buffer := bs, incoming := rest\<rparr>)"
    using Cons.prems by (intro Cons.IH) simp_all
  finally show ?case by simp
qed

lemma read_loop_silent:
  "keepReading t \<Longrightarrow> buffer t = [] \<Longrightarrow> incoming t = map (\<lambda>d. (d, [])) ds @ rest \<Longrightarrow>
   tm < e + sum_list ds \<Longrightarrow> fst (read_loop 1 tm e t) = Inl (Timeout 1 0)"
proof (induction ds arbitrary: e t)
  case Nil
  then show ?case using read_loop_stop(2) [of t 1 tm e] by simp
next
  case (Cons d ds)
  show ?case
  proof (cases "tm < e")
    case True
    then show ?thesis using Cons.prems read_loop_stop(2) [of t 1 tm e] by simp
  next
    case False
    let ?t = "t\<lparr>buffer := buffer t @ [], incoming := map (\<lambda>d. (d, [])) ds @ rest\<rparr>"
    have "read_loop 1 tm e t = read_loop 1 tm (e + d) ?t"
      using Cons.prems False by (intro read_loop_step) simp_all
    moreover have "fst (read_loop 1 tm (e + d) ?t) = Inl (Timeout 1 0)"
      using Cons.prems by (intro Cons.IH) simp_all
    ultimately show ?thesis by simp
  qed
qed





section \<open>Handshake and identification\<close>

text \<open>
  C7. On an open port \<open>sync\<close> drops what was buffered, writes the single byte
  \<open>0x7F\<close> and reads one byte with a timeout of 1000 ms. The result is decided by that
  read alone: when it returns a byte, \<open>sync\<close> succeeds exactly for \<open>ACK\<close>, raises the
  NACK error for \<open>NACK\<close> and otherwise the sync-failed error carrying the byte; when it
  fails, \<open>sync\<close> fails with the same error. On the clock of the environment: the first
  byte to arrive is read if the sleep that brings it began no later than 1000 ms after
  the start, whatever was buffered before; and the read times out once the sleeps without
  a byte have lasted more than 1000 ms.
\<close>

theorem sync_handshake:
  "portOpen t \<Longrightarrow>
     (serial_read 1 1000 (t\<lparr>buffer := [], written := written t @ [[0x7F]]\<rparr>) = (Inr [b], t') \<longrightarrow>
        sync t = ((if b = ACK then Inr () else if b = NACK then Inl SyncNack else Inl (SyncFailed b)), t')) \<and>
     (serial_read 1 1000 (t\<lparr>buffer := [], written := written t @ [[0x7F]]\<rparr>) = (Inl err, t') \<longrightarrow>
        sync t = (Inl err, t')) \<and>
     (keepReading t \<and> incoming t = map (\<lambda>d. (d, [])) ds @ (d', b # bs) # rest \<and> sum_list ds \<le> 1000 \<longrightarrow>
        sync t = ((if b = ACK then Inr () else if b = NACK then Inl SyncNack else Inl (SyncFailed b)),
                  t\<lparr>buffer := bs, incoming := rest, written := written t @ [[0x7F]]\<rparr>)) \<and>
     (keepReading t \<and> incoming t = map (\<lambda>d. (d, [])) ds @ rest \<and> 1000 < sum_list ds \<longrightarrow>
        fst (sync t) = Inl (Timeout 1 0) \<and> written (snd (sync t)) = written t @ [[0x7F]])"
proof (intro conjI impI)
  let ?t0 = "t\<lparr>buffer := [], written := written t @ [[0x7F]]\<rparr>"
  let ?res = "\<lambda>b. if b = ACK then Inr () else if b = NACK then Inl SyncNack else Inl (SyncFailed b)"
  assume po: "portOpen t"
  have unfold: "sync t =
      (case serial_read 1 1000 ?t0 of
         (Inl e, t') \<Rightarrow> (Inl e, t')
       | (Inr resp, t') \<Rightarrow>
           (case at resp 0 of None \<Rightarrow> (Inl TypeError, t')
            | Some b \<Rightarrow> if b \<noteq> ACK then (if b = NACK then (Inl SyncNack, t') else (Inl (SyncFailed b), t'))
                        else (Inr (), t')))"
    using po by (simp add: sync_def andThen_def serial_flush_def serial_write_def throw_def ok_def
                  split: prod.splits sum.splits option.splits)
  {
    assume "serial_read 1 1000 ?t0 = (Inr [b], t')"
    then show "sync t = (?res b, t')"
      by (simp add: unfold at_def)
  }
  {
    assume "serial_read 1 1000 ?t0 = (Inl err, t')"
    then show "sync t = (Inl err, t')"
      by (simp add: unfold)
  }
  {
    assume a: "keepReading t \<and> incoming t = map (\<lambda>d. (d, [])) ds @ (d', b # bs) # rest \<and> sum_list ds \<le> 1000"
    have "serial_read 1 1000 ?t0 = (Inr [b], ?t0\<lparr>buffer := bs, incoming := rest\<rparr>)"
      unfolding serial_read_def using a by (intro read_loop_arrive [where ds = ds and d' = d']) simp_all
    then show "sync t = (?res b, t\<lparr>buffer := bs, incoming := rest, written := written t @ [[0x7F]]\<rparr>)"
      by (simp add: unfold at_def)
  }
  {
    assume a: "keepReading t \<and> incoming t = map (\<lambda>d. (d, [])) ds @ rest \<and> 1000 < sum_list ds"
    have r: "fst (serial_read 1 1000 ?t0) = Inl (Timeout 1 0)"
      unfolding serial_read_def using a by (intro read_loop_silent [where ds = ds and rest = rest]) simp_all
    then obtain t'' where t'': "serial_read 1 1000 ?t0 = (Inl (Timeout 1 0), t'')"
      by (cases "serial_read 1 1000 ?t0") simp
    then have "written t'' = written ?t0"
      by (auto dest: serial_read_frameD)
    then show "fst (sync t) = Inl (Timeout 1 0)" "written (snd (sync t)) = written t @ [[0x7F]]"
      using t'' by (simp_all add: unfold)
  }
qed

lemma t_sync_reads:
  "serial_read 1 1000 ((t_sync [(700, []), (350, []), (5, [0x79])])\<lparr>buffer := [], written := [[0x7F]]\<rparr>)
     = (Inl (Timeout 1 0), (t_sync [(5, [0x79])])\<lparr>buffer := [], written := [[0x7F]]\<rparr>)"
  "serial_read 1 1000 ((t_sync [(14, []), (4000, [0x79, 0x1F])])\<lparr>buffer := [], written := [[0x7F]]\<rparr>)
     = (Inr [0x79], (t_sync [])\<lparr>buffer := [0x1F], written := [[0x7F]]\<rparr>)"
  by (simp_all add: serial_read_def read_loop.simps t_sync_def)

theorem sync_handshake_witness:
  "sync (t_sync [(14, []), (4000, [0x79, 0x1F])]) = (Inr (), (t_sync [])\<lparr>buffer := [0x1F], written := [[0x7F]]\<rparr>) \<and>
   sync (t_sync [(700, []), (350, []), (5, [0x79])])
     = (Inl (Timeout 1 0), (t_sync [(5, [0x79])])\<lparr>buffer := [], written := [[0x7F]]\<rparr>) \<and>
   sync (t_sync [(1000, []), (12, [0x1F, 0x79])])
     = (Inl SyncNack, (t_sync [])\<lparr>buffer := [0x79], written := [[0x7F]]\<rparr>) \<and>
   sync (t_sync [(11, [0x00])]) = (Inl (SyncFailed 0x00), (t_sync [])\<lparr>buffer := [], written := [[0x7F]]\<rparr>) \<and>
   fst (sync (t_sync [(600, []), (401, []), (10, [0x79])])) = Inl (Timeout 1 0)"
  using sync_handshake [of "t_sync [(14, []), (4000, [0x79, 0x1F])]" "0x79"
          "(t_sync [])\<lparr>buffer := [0x1F], written := [[0x7F]]\<rparr>"]
        sync_handshake [of "t_sync [(700, []), (350, []), (5, [0x79])]" _
          "(t_sync [(5, [0x79])])\<lparr>buffer := [], written := [[0x7F]]\<rparr>" "Timeout 1 0"]
        sync_handshake [of "t_sync [(1000, []), (12, [0x1F, 0x79])]" "0x1F" _ _ "[1000]" 12 "[0x79]" "[]"]
        sync_handshake [of "t_sync [(11, [0x00])]" "0x00" _ _ "[]" 11 "[]" "[]"]
        sync_handshake [of "t_sync [(600, []), (401, []), (10, [0x79])]" _ _ _ "[600, 401]" _ _ "[(10, [0x79])]"]
        t_sync_reads
  by (simp add: t_sync_def ACK_def NACK_def)

lemma decode_pid:
  "uint (push_bit 24 (ucast (b2::u8)) OR push_bit 16 (ucast (b3::u8)) OR push_bit 8 (ucast (b0::u8)) OR (ucast (b1::u8) :: u32))
   = push_bit 24 (uint b2) OR push_bit 16 (uint b3) OR push_bit 8 (uint b0) OR uint b1"
  apply (rule bit_eqI)
  apply (auto simp: bit_simps dest: bit_imp_le_length)
  done

lemma decode_pid_range:
  "0 \<le> pid (decodeID bs) \<and> pid (decodeID bs) < 2 ^ 32"
  using uint_lt2p [where 'a = 32] by (simp add: decodeID_def Let_def)

lemma decodeID_five:
  "decodeID [b0, b1, b2, b3, b4] =
     \<lparr>pid = push_bit 24 (uint b2) OR push_bit 16 (uint b3) OR push_bit 8 (uint b0) OR uint b1,
      projectID = Some b4\<rparr>"
  by (simp add: decodeID_def at_def elemInt32_def decode_pid)

lemma getID_run:
  assumes "sendCommand CMD_GET_ID t = (Inr (), t1)"
    and "serial_read 1 1000 t1 = (Inr [n], t2)"
    and "serial_read (unat n + 1) 1000 t2 = (Inr idBytes, t3)"
    and "serial_read 1 1000 t3 = (Inr [ACK], t4)"
  shows "getID t = (Inr (decodeID idBytes), t4)"
  using assms by (simp add: getID_def andThen_def at_def ok_def)

lemma t_id_reads:
  "sendCommand CMD_GET_ID (t_id [b0, b1, b2, b3, b4]) =
     (Inr (), t_id_done\<lparr>incoming :=
        [(11, []), (10, []), (12, []), (10, []), (11, [0x04, b0, b1, b2, b3, b4, 0x79])]\<rparr>)"
  "serial_read 1 1000 (t_id_done\<lparr>incoming :=
        [(11, []), (10, []), (12, []), (10, []), (11, [0x04, b0, b1, b2, b3, b4, 0x79])]\<rparr>) =
     (Inr [0x04], t_id_done\<lparr>buffer := [b0, b1, b2, b3, b4, 0x79]\<rparr>)"
  "serial_read 5 1000 (t_id_done\<lparr>buffer := [b0, b1, b2, b3, b4, 0x79]\<rparr>) =
     (Inr [b0, b1, b2, b3, b4], t_id_done\<lparr>buffer := [0x79]\<rparr>)"
  "serial_read 1 1000 (t_id_done\<lparr>buffer := [0x79]\<rparr>) = (Inr [ACK], t_id_done)"
     apply (simp add: sendCommand_ready t_id_def t_id_done_def ACK_def CMD_GET_ID_def)
    apply (simp add: serial_read_def read_loop.simps t_id_done_def)
   apply (simp add: serial_read_ready t_id_done_def)
  apply (simp add: serial_read_ready t_id_done_def ACK_def)
  done

lemma getID_at32:
  "getID (t_id [0x41, 0x54, 0x33, 0x32, 0x01]) = (Inr \<lparr>pid = 0x33324154, projectID = Some 0x01\<rparr>, t_id_done)"
proof -
  have "getID (t_id [0x41, 0x54, 0x33, 0x32, 0x01]) = (Inr (decodeID [0x41, 0x54, 0x33, 0x32, 0x01]), t_id_done)"
    by (rule getID_run [OF t_id_reads(1) t_id_reads(2) _ t_id_reads(4)]) (simp add: t_id_reads(3))
  then show ?thesis by (simp add: decodeID_five)
qed

lemma getID_at32_buffered:
  "getID (t_id_done\<lparr>buffer := [0x79, 0x04, 0x41, 0x54, 0x33, 0x32, 0x01, 0x79], written := []\<rparr>)
     = (Inr \<lparr>pid = 0x33324154, projectID = Some 0x01\<rparr>, t_id_done)"
  by (simp add: getID_def andThen_def sendCommand_ready serial_read_ready at_def ok_def ACK_def
        decodeID_five t_id_done_def CMD_GET_ID_def)

text \<open>
  C2. When the device acknowledges \<open>GET_ID\<close> and answers with the length byte 4, five
  ID bytes and \<open>ACK\<close>, \<open>getID\<close> returns the unsigned 32-bit number
  \<open>(byte2 << 24) | (byte3 << 16) | (byte0 << 8) | byte1\<close> as the product id and byte 4
  as the project id.
\<close>

theorem getID_decodes:
  assumes "sendCommand CMD_GET_ID t = (Inr (), t1)"
    and "serial_read 1 1000 t1 = (Inr [0x04], t2)"
    and "serial_read 5 1000 t2 = (Inr [b0, b1, b2, b3, b4], t3)"
    and "serial_read 1 1000 t3 = (Inr [ACK], t4)"
  shows "\<exists>p. getID t = (Inr \<lparr>pid = p, projectID = Some b4\<rparr>, t4) \<and>
             p = push_bit 24 (uint b2) OR push_bit 16 (uint b3) OR push_bit 8 (uint b0) OR uint b1 \<and>
             0 \<le> p \<and> p < 2 ^ 32"
  using getID_run [OF assms(1,2) _ assms(4)] assms(3) decode_pid_range [of "[b0, b1, b2, b3, b4]"]
  by (simp add: decodeID_five)

theorem getID_decodes_witness:
  "getID (t_id [0x12, 0x34, 0xAB, 0xCD, 0x07]) = (Inr \<lparr>pid = 0xABCD1234, projectID = Some 0x07\<rparr>, t_id_done)"
  using getID_decodes [OF t_id_reads, of "0x12" "0x34" "0xAB" "0xCD" "0x07"] by simp

text \<open>
  C3. For the response \<open>04 41 54 33 32 01 79\<close> the product id is not
  \<open>0x33325441\<close>: byte 0 (\<open>0x41\<close>) supplies bits 8 to 15 and byte 1 (\<open>0x54\<close>)
  bits 0 to 7.
\<close>

theorem getID_example_counterexample:
  "fst (getID (t_id [0x41, 0x54, 0x33, 0x32, 0x01])) \<noteq> Inr \<lparr>pid = 0x33325441, projectID = Some 0x01\<rparr>"
  by (simp add: getID_at32)

text \<open>
  C3, amended. For the response \<open>04 41 54 33 32 01 79\<close>, whether it arrives after the
  command or is already buffered, \<open>getID\<close> returns the product id \<open>0x33324154\<close> and
  the project id 1.
\<close>

theorem getID_example:
  "fst (getID (t_id [0x41, 0x54, 0x33, 0x32, 0x01])) = Inr \<lparr>pid = 0x33324154, projectID = Some 0x01\<rparr> \<and>
   fst (getID (t_id_done\<lparr>buffer := [0x79, 0x04, 0x41, 0x54, 0x33, 0x32, 0x01, 0x79], written := []\<rparr>))
     = Inr \<lparr>pid = 0x33324154, projectID = Some 0x01\<rparr>"
  by (simp add: getID_at32 getID_at32_buffered)

section \<open>Properties of the ELF parser\<close>

lemma bindE_simps [simp]:
  "bindE (Inl e) f = Inl e" "bindE (Inr x) f = f x"
  by (simp_all add: bindE_def)

lemma getUint32_le: "off + 4 \<le> length buf \<Longrightarrow> getUint32 buf off True = Inr (le32 buf off)"
  by (simp add: getUint32_def le32_def)

lemma getUint16_le: "off + 2 \<le> length buf \<Longrightarrow> getUint16 buf off True = Inr (le16 buf off)"
  by (simp add: getUint16_def le16_def)

lemma programHeaders_append:
  "programHeaders buf le phOff sz (xs @ ys) segs =
     bindE (programHeaders buf le phOff sz xs segs) (programHeaders buf le phOff sz ys)"
proof (induction xs arbitrary: segs)
  case Nil
  then show ?case by simp
next
  case (Cons i xs)
  then show ?case
    by (cases "programHeader buf le (phOff + i * sz) segs") simp_all
qed

lemma programHeader_skip:
  assumes "off + 32 \<le> length buf" "le32 buf off \<noteq> 1 \<or> le32 buf (off + 16) = 0"
  shows "programHeader buf True off segs = Inr segs"
  using assms by (auto simp: programHeader_def getUint32_le)

lemma programHeader_load:
  assumes "off + 32 \<le> length buf" "le32 buf off = 1" "0 < le32 buf (off + 16)"
    "le32 buf (off + 4) + le32 buf (off + 16) \<le> length buf"
  shows "programHeader buf True off segs =
           Inr (segs @ [\<lparr>address = Num (int (le32 buf (off + 12))),
                           data = take (le32 buf (off + 16)) (drop (le32 buf (off + 4)) buf)\<rparr>])"
  using assms by (simp add: programHeader_def getUint32_le uint8View_def)

lemma programHeaders_skip:
  assumes "\<forall>i \<in> set xs. phOff + i * sz + 32 \<le> length buf \<and>
             (le32 buf (phOff + i * sz) \<noteq> 1 \<or> le32 buf (phOff + i * sz + 16) = 0)"
  shows "programHeaders buf True phOff sz xs segs = Inr segs"
  using assms by (induction xs) (simp_all add: programHeader_skip)

lemma upt_split3: "k < n \<Longrightarrow> [0..<n] = [0..<k] @ [k] @ [Suc k..<n]"
  by (metis append_Cons append_Nil le_add2 le_add_same_cancel2 less_imp_add_positive upt_add_eq_append upt_rec)

lemma take4: "4 \<le> length buf \<Longrightarrow> take 4 buf = [buf ! 0, buf ! 1, buf ! 2, buf ! 3]"
  by (auto simp: list_eq_iff_nth_eq less_Suc_eq numeral_eq_Suc)

lemma magic_digits:
  fixes a b c d :: nat
  assumes "a < 256" "b < 256" "c < 256" "d < 256"
    and eq: "16777216 * a + 65536 * b + 256 * c + d = 2135247942"
  shows "a = 127 \<and> b = 69 \<and> c = 76 \<and> d = 70"
proof -
  have "\<not> a \<le> 126" "\<not> 128 \<le> a" using assms by linarith+
  then have a: "a = 127" by linarith
  have "\<not> b \<le> 68" "\<not> 70 \<le> b" using assms a by linarith+
  then have b: "b = 69" by linarith
  have "\<not> c \<le> 75" "\<not> 77 \<le> c" using assms a b by linarith+
  then have c: "c = 76" by linarith
  have "d = 70" using eq a b c by linarith
  with a b c show ?thesis by simp
qed

lemma be32_magic:
  fixes a b c d :: u8
  shows "2 ^ 24 * unat a + 2 ^ 16 * unat b + 2 ^ 8 * unat c + unat d = (0x7F454C46 :: nat)
           \<longleftrightarrow> a = 0x7F \<and> b = 0x45 \<and> c = 0x4C \<and> d = 0x46"
proof -
  have bounds: "unat a < 256" "unat b < 256" "unat c < 256" "unat d < 256"
    using unsigned_less [of a, where 'a = nat] unsigned_less [of b, where 'a = nat]
      unsigned_less [of c, where 'a = nat] unsigned_less [of d, where 'a = nat] by simp_all
  have "2 ^ 24 * unat a + 2 ^ 16 * unat b + 2 ^ 8 * unat c + unat d = (0x7F454C46 :: nat)
          \<longleftrightarrow> unat a = 0x7F \<and> unat b = 0x45 \<and> unat c = 0x4C \<and> unat d = 0x46"
    using magic_digits [OF bounds] by auto
  also have "\<dots> \<longleftrightarrow> a = 0x7F \<and> b = 0x45 \<and> c = 0x4C \<and> d = 0x46"
    by (simp add: word_unat_eq_iff)
  finally show ?thesis .
qed

lemma magic_ok:
  assumes "4 \<le> length buf"
  shows "getUint32 buf 0 False = Inr 0x7F454C46 \<longleftrightarrow> take 4 buf = [0x7F, 0x45, 0x4C, 0x46]"
  using assms be32_magic [of "buf ! 0" "buf ! 1" "buf ! 2" "buf ! 3"]
  by (simp add: getUint32_def take4 numeral_2_eq_2 numeral_3_eq_3)

lemma getUint_errors:
  "getUint8 buf off = Inl e \<Longrightarrow> e = RangeError"
  "getUint16 buf off le = Inl e \<Longrightarrow> e = RangeError"
  "getUint32 buf off le = Inl e \<Longrightarrow> e = RangeError"
  "uint8View buf off n = Inl e \<Longrightarrow> e = RangeError"
  by (auto simp: getUint8_def getUint16_def getUint32_def uint8View_def Let_def split: if_splits)

lemma bindE_InlD:
  "bindE m f = Inl e \<Longrightarrow> m = Inl e \<or> (\<exists>x. m = Inr x \<and> f x = Inl e)"
  by (cases m) simp_all

lemma programHeader_error: "programHeader buf le off segs = Inl e \<Longrightarrow> e = RangeError"
  unfolding programHeader_def
  by (auto dest!: bindE_InlD split: if_splits) (blast dest: getUint_errors)+

lemma programHeaders_error: "programHeaders buf le phOff sz xs segs = Inl e \<Longrightarrow> e = RangeError"
proof (induction xs arbitrary: segs)
  case Nil
  then show ?case by simp
next
  case (Cons i xs)
  then show ?case
    by (auto dest!: bindE_InlD dest: programHeader_error)
qed

lemma parseElf32_error: "parseElf32 buf le = Inl e \<Longrightarrow> e = RangeError"
  unfolding parseElf32_def
  by (auto dest!: bindE_InlD dest: getUint_errors programHeaders_error)

lemma parseElf_class:
  assumes "5 \<le> length buf" "take 4 buf = elfMagic"
  shows "parseElf buf =
           bindE (getUint8 buf 5) (\<lambda>dat. if buf ! 4 \<noteq> 2 then parseElf32 buf (dat = 1) else Inl Elf64NotSupported)"
proof -
  have m: "getUint32 buf 0 False = Inr 0x7F454C46"
    using assms magic_ok [of buf] by (simp add: elfMagic_def)
  have c: "getUint8 buf 4 = Inr (unat (buf ! 4))"
    using assms by (simp add: getUint8_def)
  have "unat (buf ! 4) = 2 \<longleftrightarrow> buf ! 4 = 2"
    by (simp add: word_unat_eq_iff)
  then show ?thesis
    by (simp add: parseElf_def m c Let_def cong: if_cong)
qed

lemma parseElf32_one_load:
  assumes len: "46 \<le> length buf"
    and inside: "\<forall>i < le16 buf 44. elfEntry buf i + 32 \<le> length buf"
    and k: "k < le16 buf 44" "le32 buf (elfEntry buf k) = 1" "0 < le32 buf (elfEntry buf k + 16)"
      "le32 buf (elfEntry buf k + 4) + le32 buf (elfEntry buf k + 16) \<le> length buf"
    and others: "\<forall>i < le16 buf 44. i \<noteq> k \<longrightarrow>
        le32 buf (elfEntry buf i) \<noteq> 1 \<or> le32 buf (elfEntry buf i + 16) = 0"
  shows "parseElf32 buf True =
           Inr [\<lparr>address = Num (int (le32 buf (elfEntry buf k + 12))),
                 data = take (le32 buf (elfEntry buf k + 16)) (drop (le32 buf (elfEntry buf k + 4)) buf)\<rparr>]"
proof -
  let ?off = "le32 buf 28" and ?sz = "le16 buf 42" and ?n = "le16 buf 44"
  have hdr: "getUint32 buf 28 True = Inr ?off" "getUint16 buf 42 True = Inr ?sz"
    "getUint16 buf 44 True = Inr ?n"
    using len by (simp_all add: getUint32_le getUint16_le)
  have before: "programHeaders buf True ?off ?sz [0..<k] [] = Inr []"
    using inside others k(1) by (intro programHeaders_skip) (auto simp: elfEntry_def)
  have at_k: "programHeader buf True (?off + k * ?sz) [] =
      Inr [\<lparr>address = Num (int (le32 buf (elfEntry buf k + 12))),
            data = take (le32 buf (elfEntry buf k + 16)) (drop (le32 buf (elfEntry buf k + 4)) buf)\<rparr>]"
    using programHeader_load [of "elfEntry buf k" buf "[]"] inside k by (simp add: elfEntry_def)
  have after: "programHeaders buf True ?off ?sz [Suc k..<?n] segs = Inr segs" for segs
    using inside others by (intro programHeaders_skip) (auto simp: elfEntry_def)
  show ?thesis
    unfolding parseElf32_def hdr bindE_simps upt_split3 [OF k(1)] programHeaders_append
    by (simp add: before at_k after)
qed

lemma elf_file_fields:
  "length (elf_file c) = 180"
  "take 4 (elf_file c) = elfMagic"
  "elf_file c ! 4 = c"
  "elf_file c ! 5 = 1"
  "le32 (elf_file c) 28 = 52"
  "le16 (elf_file c) 42 = 32"
  "le16 (elf_file c) 44 = 2"
  "le32 (elf_file c) 52 = 4"
  "le32 (elf_file c) 84 = 1"
  "le32 (elf_file c) 88 = 116"
  "le32 (elf_file c) 96 = 0x08000000"
  "le32 (elf_file c) 100 = 64"
  "take 64 (drop 116 (elf_file c)) = replicate 64 0xA5"
  by (simp_all add: elf_file_def elfMagic_def le32_def le16_def nth_append)

lemma elf_file_entries:
  "elfEntry (elf_file c) 0 = 52" "elfEntry (elf_file c) 1 = 84" "elfEntry (elf_file c) (Suc 0) = 84"
  by (simp_all add: elfEntry_def elf_file_fields)

lemma all_less_2: "(\<forall>i<2. P i) \<longleftrightarrow> P 0 \<and> P (Suc 0)"
  by (auto simp: less_Suc_eq numeral_2_eq_2)

lemma elf_file_parse32:
  "parseElf32 (elf_file c) True = Inr [\<lparr>address = Num 0x08000000, data = replicate 64 0xA5\<rparr>]"
  using parseElf32_one_load [of "elf_file c" 1]
  by (simp add: elf_file_fields elf_file_entries all_less_2)

text \<open>
  C6. A buffer holding only the magic number and the class byte 2 does not raise the
  64-bit error: the endianness byte at offset 5 is read before the class is acted on, and
  that read is out of range.
\<close>

theorem parseElf_truncated_counterexample:
  "parseElf [0x7F, 0x45, 0x4C, 0x46, 0x02] = Inl RangeError \<and>
   parseElf [0x7F, 0x45, 0x4C, 0x46, 0x02] \<noteq> Inl Elf64NotSupported"
  by (simp add: parseElf_def getUint32_def getUint8_def)

text \<open>
  C6, amended. For a 32-bit little-endian image whose header and program header entries
  lie within the buffer, and in which one entry \<open>k\<close> is a \<open>PT_LOAD\<close> with
  \<open>p_paddr = 0x08000000\<close> and \<open>p_filesz = 64\<close> whose contents lie within the buffer,
  every other entry being not loadable or of file size 0, \<open>parseElf\<close> returns exactly
  one segment: address \<open>0x08000000\<close> and the 64 bytes at \<open>p_offset\<close>. For a buffer of
  at least 6 bytes with the magic number and class byte 2 it raises the 64-bit error,
  whatever follows: no field after the endianness byte is read.
\<close>

theorem parseElf_one_load:
  "(46 \<le> length buf \<and> take 4 buf = elfMagic \<and> buf ! 4 = 1 \<and> buf ! 5 = 1 \<and>
    (\<forall>i < le16 buf 44. elfEntry buf i + 32 \<le> length buf) \<and>
    k < le16 buf 44 \<and> le32 buf (elfEntry buf k) = 1 \<and>
    le32 buf (elfEntry buf k + 12) = 0x08000000 \<and> le32 buf (elfEntry buf k + 16) = 64 \<and>
    le32 buf (elfEntry buf k + 4) + 64 \<le> length buf \<and>
    (\<forall>i < le16 buf 44. i \<noteq> k \<longrightarrow>
       le32 buf (elfEntry buf i) \<noteq> 1 \<or> le32 buf (elfEntry buf i + 16) = 0)
    \<longrightarrow> parseElf buf =
          Inr [\<lparr>address = Num 0x08000000,
                data = take 64 (drop (le32 buf (elfEntry buf k + 4)) buf)\<rparr>] \<and>
        length (take 64 (drop (le32 buf (elfEntry buf k + 4)) buf)) = 64) \<and>
   (6 \<le> length buf \<and> take 4 buf = elfMagic \<and> buf ! 4 = 2 \<longrightarrow> parseElf buf = Inl Elf64NotSupported)"
proof (intro conjI impI)
  assume a: "6 \<le> length buf \<and> take 4 buf = elfMagic \<and> buf ! 4 = 2"
  then show "parseElf buf = Inl Elf64NotSupported"
    using parseElf_class [of buf] by (simp add: getUint8_def)
next
  assume a: "46 \<le> length buf \<and> take 4 buf = elfMagic \<and> buf ! 4 = 1 \<and> buf ! 5 = 1 \<and>
    (\<forall>i < le16 buf 44. elfEntry buf i + 32 \<le> length buf) \<and>
    k < le16 buf 44 \<and> le32 buf (elfEntry buf k) = 1 \<and>
    le32 buf (elfEntry buf k + 12) = 0x08000000 \<and> le32 buf (elfEntry buf k + 16) = 64 \<and>
    le32 buf (elfEntry buf k + 4) + 64 \<le> length buf \<and>
    (\<forall>i < le16 buf 44. i \<noteq> k \<longrightarrow>
       le32 buf (elfEntry buf i) \<noteq> 1 \<or> le32 buf (elfEntry buf i + 16) = 0)"
  then have "parseElf buf = parseElf32 buf True"
    using parseElf_class [of buf] by (simp add: getUint8_def)
  also have "\<dots> = Inr [\<lparr>address = Num (int (le32 buf (elfEntry buf k + 12))),
                 data = take (le32 buf (elfEntry buf k + 16)) (drop (le32 buf (elfEntry buf k + 4)) buf)\<rparr>]"
    using a by (intro parseElf32_one_load) simp_all
  finally show "parseElf buf =
          Inr [\<lparr>address = Num 0x08000000,
                data = take 64 (drop (le32 buf (elfEntry buf k + 4)) buf)\<rparr>]"
    using a by simp
  from a show "length (take 64 (drop (le32 buf (elfEntry buf k + 4)) buf)) = 64"
    by (auto simp: min_def)
qed

theorem parseElf_one_load_witness:
  "parseElf (elf_file 1) = Inr [\<lparr>address = Num 0x08000000, data = replicate 64 0xA5\<rparr>] \<and>
   parseElf (elfMagic @ [2, 1]) = Inl Elf64NotSupported"
  using parseElf_one_load [of "elf_file 1" 1] parseElf_one_load [of "elfMagic @ [2, 1]"]
  by (simp add: elf_file_fields elf_file_entries all_less_2) (simp add: elfMagic_def)

text \<open>
  C10. With the magic number in place and a class byte that is neither 1 nor 2,
  \<open>parseElf\<close> takes the 32-bit path: the result is that of the 32-bit header and
  program header loop, and it is never the 64-bit error or the magic error.
\<close>

theorem parseElf_other_class:
  "5 \<le> length buf \<Longrightarrow> take 4 buf = elfMagic \<Longrightarrow> buf ! 4 \<noteq> 1 \<Longrightarrow> buf ! 4 \<noteq> 2 \<Longrightarrow>
     parseElf buf = bindE (getUint8 buf 5) (\<lambda>dat. parseElf32 buf (dat = 1)) \<and>
     parseElf buf \<noteq> Inl Elf64NotSupported \<and> parseElf buf \<noteq> Inl InvalidElfMagic"
proof -
  assume a: "5 \<le> length buf" "take 4 buf = elfMagic" "buf ! 4 \<noteq> 1" "buf ! 4 \<noteq> 2"
  have eq: "parseElf buf = bindE (getUint8 buf 5) (\<lambda>dat. parseElf32 buf (dat = 1))"
    using parseElf_class [OF a(1,2)] a(4) by simp
  have "e = RangeError" if "parseElf buf = Inl e" for e
    using that unfolding eq
    by (auto dest!: bindE_InlD dest: getUint_errors(1) parseElf32_error)
  then show ?thesis using eq by auto
qed

theorem parseElf_other_class_witness:
  "5 \<le> length (elf_file 0xFF) \<and> take 4 (elf_file 0xFF) = elfMagic \<and>
   elf_file 0xFF ! 4 \<noteq> 1 \<and> elf_file 0xFF ! 4 \<noteq> 2 \<and>
   parseElf (elf_file 0xFF) = Inr [\<lparr>address = Num 0x08000000, data = replicate 64 0xA5\<rparr>] \<and>
   parseElf (elf_file 0xFF) \<noteq> Inl Elf64NotSupported \<and> parseElf (elf_file 0xFF) \<noteq> Inl InvalidElfMagic"
  using parseElf_other_class [of "elf_file 0xFF"]
  by (simp add: elf_file_fields elf_file_parse32 getUint8_def)

section \<open>Properties of the Intel HEX parser\<close>

text \<open>
  The examples of the specification: two contiguous 16-byte records give one segment of
  32 bytes at \<open>0x0000\<close>; with an extended linear address record between them they give
  two segments.
\<close>

lemma parseHex_examples:
  "parseHex (joinLines [hex_row0, hex_row1, '':00000001FF''])
     = Inr [\<lparr>address = Num 0, data = map of_nat [0..<32]\<rparr>]"
  "parseHex (joinLines [hex_row0, '':020000040000FA'', hex_row1, '':00000001FF''])
     = Inr [\<lparr>address = Num 0, data = map of_nat [0..<16]\<rparr>,
            \<lparr>address = Num 16, data = map of_nat [16..<32]\<rparr>]"
  by code_simp+

lemma sim_commit: "hex_sim st s \<Longrightarrow> hex_sim (commitSegment st) (spec_close s)"
  by (auto simp: hex_sim_def commitSegment_def spec_close_def split: option.splits)

lemma sim_commit_emitted: "hex_sim st s \<Longrightarrow> segments (commitSegment st) = emitted (spec_close s)"
  using sim_commit [of st s] by (simp add: hex_sim_def)

lemma sim_ext:
  "hex_sim st s \<Longrightarrow> hex_sim (st\<lparr>extendedAddress := x\<rparr>) (s\<lparr>extended := x\<rparr>)"
  by (auto simp: hex_sim_def split: option.splits)

lemma strictEq_add0: "strictEq a (numAdd b (Num 0)) \<Longrightarrow> b = a"
  by (cases a; cases b) (simp_all add: strictEq_def numAdd_def)

lemma sim_data:
  assumes "hex_sim st s" "\<not> strictEq (numAdd (extended s) addr) (Num (-1))"
  shows "hex_sim (dataRecord len addr dataStr st) (spec_data len addr dataStr s)"
  using assms
  by (auto simp: hex_sim_def dataRecord_def spec_data_def spec_bytes_def Let_def
        commitSegment_def spec_close_def split: option.splits dest: strictEq_add0)

lemma sim_lines:
  "hex_sim st s \<Longrightarrow> sentinelFree ls (extended s) \<Longrightarrow> hex_sim (hexLines ls st) (spec_lines ls s)"
proof (induction ls arbitrary: st s)
  case Nil
  then show ?case by simp
next
  case (Cons line rest)
  show ?case
  proof (cases "case line of c # _ \<Rightarrow> c \<noteq> CHR '':'' | [] \<Rightarrow> True")
    case True
    then show ?thesis using Cons by simp
  next
    case False
    obtain len addr type dataStr where f: "spec_fields line = (len, addr, type, dataStr)"
      by (cases "spec_fields line") auto
    then have fields:
      "parseInt16 (substring line (Num 1) (Num 3)) = len"
      "parseInt16 (substring line (Num 3) (Num 7)) = addr"
      "parseInt16 (substring line (Num 7) (Num 9)) = type"
      "substring line (Num 9) (numAdd (Num 9) (numMul len (Num 2))) = dataStr"
      by (auto simp: spec_fields_def Let_def)
    have ext: "extendedAddress st = extended s" using Cons.prems(1) by (simp add: hex_sim_def)
    consider (d) "strictEq type (Num 0)"
      | (s2) "\<not> strictEq type (Num 0)" "strictEq type (Num 2)"
      | (s4) "\<not> strictEq type (Num 0)" "\<not> strictEq type (Num 2)" "strictEq type (Num 4)"
      | (e) "\<not> strictEq type (Num 0)" "\<not> strictEq type (Num 2)" "\<not> strictEq type (Num 4)" "strictEq type (Num 1)"
      | (o) "\<not> strictEq type (Num 0)" "\<not> strictEq type (Num 2)" "\<not> strictEq type (Num 4)" "\<not> strictEq type (Num 1)"
      by blast
    then show ?thesis
    proof cases
      case d
      then have "\<not> strictEq (numAdd (extended s) addr) (Num (-1))" "sentinelFree rest (extended s)"
        using Cons.prems(2) False f by simp_all
      moreover from this have "sentinelFree rest (extended (spec_data len addr dataStr s))"
        by (simp add: spec_data_def Let_def spec_close_def split: option.splits)
      ultimately show ?thesis
        using False f fields d Cons.IH [OF sim_data [OF Cons.prems(1)]]
        by (simp add: Let_def)
    next
      case s2
      let ?x = "shiftLeft (parseInt16 dataStr) 4"
      have "hex_sim (commitSegment (st\<lparr>extendedAddress := ?x\<rparr>)) (spec_close (s\<lparr>extended := ?x\<rparr>))"
        by (intro sim_commit sim_ext Cons.prems(1))
      moreover have "sentinelFree rest (extended (spec_close (s\<lparr>extended := ?x\<rparr>)))"
        using Cons.prems(2) False f s2 by (simp add: spec_close_def split: option.splits)
      ultimately show ?thesis
        using False f fields s2 Cons.IH by (simp add: Let_def)
    next
      case s4
      let ?x = "shiftLeft (parseInt16 dataStr) 16"
      have "hex_sim (commitSegment (st\<lparr>extendedAddress := ?x\<rparr>)) (spec_close (s\<lparr>extended := ?x\<rparr>))"
        by (intro sim_commit sim_ext Cons.prems(1))
      moreover have "sentinelFree rest (extended (spec_close (s\<lparr>extended := ?x\<rparr>)))"
        using Cons.prems(2) False f s4 by (simp add: spec_close_def split: option.splits)
      ultimately show ?thesis
        using False f fields s4 Cons.IH by (simp add: Let_def)
    next
      case e
      then show ?thesis
        using False f fields sim_commit [OF Cons.prems(1)] by (simp add: Let_def)
    next
      case o
      then show ?thesis
        using False f fields Cons by (simp add: Let_def)
    qed
  qed
qed

text \<open>
  Apart from that address the parser is the accumulator of the specification: for every
  text without a data record at absolute address \<open>-1\<close> it returns what the
  specification describes.
\<close>

lemma parseHex_refines:
  "sentinelFree (splitLines [] text) (Num 0) \<Longrightarrow> parseHex text = Inr (spec_parse_hex text)"
proof -
  assume a: "sentinelFree (splitLines [] text) (Num 0)"
  let ?st0 = "\<lparr>segments = [], extendedAddress = Num 0, currentData = [], currentAddress = Num (-1)\<rparr>"
  let ?s0 = "\<lparr>emitted = [], extended = Num 0, current = None\<rparr>"
  have "hex_sim ?st0 ?s0" by (simp add: hex_sim_def)
  then have "hex_sim (hexLines (splitLines [] text) ?st0) (spec_lines (splitLines [] text) ?s0)"
    using a by (intro sim_lines) simp_all
  then show ?thesis
    by (simp add: parseHex_def spec_parse_hex_def sim_commit_emitted)
qed

text \<open>
  C5. The absolute address \<open>0xFFFFFFFF\<close> is computed as \<open>-1\<close> (the shift
  \<open>0xFFFF << 16\<close> is a signed 32-bit value), which is also the marker for "no open
  segment". A data record at that address is therefore never closed: at the end-of-file
  record it is dropped, and after an extended linear address record it is merged into the
  segment of the following, non-contiguous data record.
\<close>

theorem parseHex_sentinel:
  "parseHex (joinLines ['':02000004FFFFFC'', '':01FFFF0041C0'', '':00000001FF'']) = Inr [] \<and>
   parseHex (joinLines ['':02000004FFFFFC'', '':01FFFF0041C0'', '':020000040800F2'', '':0100000042BD'',
                        '':00000001FF''])
     = Inr [\<lparr>address = Num 0x08000000, data = [0x41, 0x42]\<rparr>]"
  by code_simp

section \<open>Errors of the parsers\<close>





end
